theory Spec2Isabelle
  imports Complex_Main "HOL-Library.Word"
begin

section \<open>Exceptions\<close>

text \<open>
  The exceptions that end a run of the modelled code. \<open>CvError\<close> stands for the
  exception that the drawing routines of \<open>cv2\<close> raise when a coordinate does not fit a C
  \<open>int\<close>.
\<close>

datatype py_error = NameError | ValueError | EOFError | OverflowError | CvError

section \<open>Containment test (main.py, point\_inside)\<close>

text \<open>
  The trigger region is the tuple \<open>(x, y, w, h)\<close> returned by the region selection, a
  point is a pair of coordinates; both hold Python integers. \<open>point_inside\<close> builds the
  four corners of the region, converts the corners and the point to 32-bit floats and
  hands them to the library routine \<open>cv.pointPolygonTest\<close> with
  \<open>measureDist = False\<close>.
\<close>

type_synonym 'a point = "'a \<times> 'a"
type_synonym 'a rect = "'a \<times> 'a \<times> 'a \<times> 'a"
type_synonym color = "nat \<times> nat \<times> nat"

text \<open>
  Model of the library routine \<open>cv.pointPolygonTest(contour, pt, False)\<close>, after its
  documentation: the contour is the closed polygon through the given vertices in order;
  the result is \<open>0\<close> when the point lies on an edge or coincides with a vertex,
  \<open>+1\<close> when it is inside and \<open>-1\<close> when it is outside. Inside and outside are
  decided by counting the signed crossings of the edges with the horizontal ray leaving
  the point to the right.
\<close>

definition cross :: "('a::linordered_idom) point \<Rightarrow> 'a point \<Rightarrow> 'a point \<Rightarrow> 'a" where
  "cross a b p = (fst b - fst a) * (snd p - snd a) - (snd b - snd a) * (fst p - fst a)"

definition on_edge :: "('a::linordered_idom) point \<times> 'a point \<Rightarrow> 'a point \<Rightarrow> bool" where
  "on_edge e p =
     (cross (fst e) (snd e) p = 0
      \<and> min (fst (fst e)) (fst (snd e)) \<le> fst p \<and> fst p \<le> max (fst (fst e)) (fst (snd e))
      \<and> min (snd (fst e)) (snd (snd e)) \<le> snd p \<and> snd p \<le> max (snd (fst e)) (snd (snd e)))"

definition crossing :: "('a::linordered_idom) point \<times> 'a point \<Rightarrow> 'a point \<Rightarrow> int" where
  "crossing e p =
     (if snd (fst e) \<le> snd p
      then (if snd p < snd (snd e) \<and> 0 < cross (fst e) (snd e) p then 1 else 0)
      else (if snd (snd e) \<le> snd p \<and> cross (fst e) (snd e) p < 0 then - 1 else 0))"

fun contour_edges :: "'a list \<Rightarrow> ('a \<times> 'a) list" where
  "contour_edges [] = []"
| "contour_edges (v # vs) = zip (v # vs) (vs @ [v])"

definition pointPolygonTest :: "('a::linordered_idom) point list \<Rightarrow> 'a point \<Rightarrow> int" where
  "pointPolygonTest contour pt =
     (if list_ex (\<lambda>e. on_edge e pt) (contour_edges contour) then 0
      else if sum_list (map (\<lambda>e. crossing e pt) (contour_edges contour)) \<noteq> 0 then 1
      else - 1)"

text \<open>
  The conversion of a Python integer to \<open>np.float32\<close>. The integer is first converted to
  a 64-bit float and then cast to 32 bits, each time rounding to the nearest value with
  ties to the even significand (53 and 24 significant bits). A float that holds an
  integer is represented by that integer.
\<close>

text \<open>The number of binary digits of a positive integer.\<close>

function bit_length :: "int \<Rightarrow> nat" where
  "bit_length n = (if n \<le> 0 then 0 else Suc (bit_length (n div 2)))"
  by pat_completeness auto
termination
  by (relation "measure nat") auto

declare bit_length.simps [simp del]

text \<open>A non-negative integer rounded to \<open>p\<close> significant bits, ties to even.\<close>

definition rne :: "nat \<Rightarrow> int \<Rightarrow> int" where
  "rne p a =
     (if a \<le> 2 ^ p then a
      else (let q = 2 ^ (bit_length a - p); f = a div q; r = a mod q
            in if 2 * r < q then f * q
               else if q < 2 * r then (f + 1) * q
               else if even f then f * q else (f + 1) * q))"

text \<open>
  \<open>np_float32 n\<close>: the conversion raises \<open>OverflowError\<close> when the integer is too large
  for a 64-bit float; it yields an infinite float, here \<open>None\<close>, when the 64-bit float is
  too large for 32 bits; otherwise it yields the rounded integer.
\<close>

definition np_float32 :: "int \<Rightarrow> py_error + int option" where
  "np_float32 n =
     (let d = rne 53 \<bar>n\<bar>
      in if 2 ^ 1024 \<le> d then Inl OverflowError
         else (let s = rne 24 d
               in if 2 ^ 128 \<le> s then Inr None else Inr (Some (sgn n * s))))"

text \<open>
  The conversion of all entries of an array: it raises when one entry raises; otherwise
  the result is \<open>None\<close> when one entry is infinite.
\<close>

fun np_float32_list :: "int list \<Rightarrow> py_error + int list option" where
  "np_float32_list [] = Inr (Some [])"
| "np_float32_list (n # ns) =
     (case np_float32 n of
        Inl e \<Rightarrow> Inl e
      | Inr v \<Rightarrow>
          (case np_float32_list ns of
             Inl e \<Rightarrow> Inl e
           | Inr vs \<Rightarrow>
               Inr (case v of
                      None \<Rightarrow> None
                    | Some a \<Rightarrow> (case vs of None \<Rightarrow> None | Some as \<Rightarrow> Some (a # as)))))"

text \<open>
  \<open>point_inside\<close>. The result \<open>Inr None\<close> says that a coordinate is infinite as a
  32-bit float; what the library routine answers for infinite coordinates is not
  modelled.
\<close>

definition point_inside :: "int rect \<Rightarrow> int point \<Rightarrow> py_error + (bool \<times> color) option" where
  "point_inside rect point =
     (case rect of (x, y, w, h) \<Rightarrow>
        (case np_float32_list [x, y, x + w, y, x + w, y + h, x, y + h, fst point, snd point] of
           Inl e \<Rightarrow> Inl e
         | Inr None \<Rightarrow> Inr None
         | Inr (Some c) \<Rightarrow>
             (let test = pointPolygonTest
                           [(c ! 0, c ! 1), (c ! 2, c ! 3), (c ! 4, c ! 5), (c ! 6, c ! 7)]
                           (c ! 8, c ! 9)
              in if test \<ge> 0 then Inr (Some (True, (255, 0, 0)))
                 else Inr (Some (False, (0, 255, 0))))))"

text \<open>The integers that a 32-bit float holds without rounding.\<close>

definition exact_float32 :: "int \<Rightarrow> bool" where
  "exact_float32 n = (\<bar>n\<bar> \<le> 2 ^ 24)"

section \<open>Tracking loop (main.py, lines 194 to 229)\<close>

text \<open>
  The loop reads the module-level names \<open>in_roi\<close> and \<open>prev_state\<close>. A name that has
  not been assigned yet is \<open>None\<close> here, and reading it raises \<open>NameError\<close>. No
  statement before the loop assigns either name.
\<close>

record vars =
  in_roi :: "bool option"
  prev_state :: "bool option"

definition initial_vars :: vars where
  "initial_vars = \<lparr>in_roi = None, prev_state = None\<rparr>"

text \<open>
  One entry per frame that \<open>cap.read()\<close> delivers: the result of \<open>tracker.update\<close>
  (success flag and box) and the key code returned by \<open>cv.waitKey(1)\<close>. A box, like
  the trigger region returned by \<open>cv.selectROI\<close>, is a \<open>cv::Rect\<close>: four C \<open>int\<close>
  values, which Python reads as integers (\<open>sint\<close>).
\<close>

record frame =
  success :: bool
  roi :: "32 word rect"
  key :: int

text \<open>What one pass through the loop body does to the outside world.\<close>

record frame_out =
  triggered :: bool
  written :: "(int \<times> int \<times> bool) option"

text \<open>The Python integers of a \<open>cv::Rect\<close>.\<close>

definition py_rect :: "32 word rect \<Rightarrow> int rect" where
  "py_rect r = (case r of (x, y, w, h) \<Rightarrow> (sint x, sint y, sint w, sint h))"

text \<open>Python's \<open>int()\<close> of a float truncates towards zero; here of \<open>a + b / 2\<close>.\<close>

definition int_half :: "int \<Rightarrow> int \<Rightarrow> int" where
  "int_half a b = (let n = 2 * a + b in if 0 \<le> n then n div 2 else - ((- n) div 2))"

definition center_of :: "32 word rect \<Rightarrow> int point" where
  "center_of r = (case py_rect r of (x, y, w, h) \<Rightarrow> (int_half x w, int_half y h))"

text \<open>Whether a Python integer fits a C \<open>int\<close>, as \<open>cv.rectangle\<close> and \<open>cv.circle\<close> need.\<close>

definition fits_c_int :: "int \<Rightarrow> bool" where
  "fits_c_int n = (- (2 ^ 31) \<le> n \<and> n < 2 ^ 31)"

text \<open>Line 200: \<open>cv.rectangle\<close> is given the corners of the region.\<close>

definition region_fits :: "32 word rect \<Rightarrow> bool" where
  "region_fits rect =
     (case py_rect rect of (x, y, w, h) \<Rightarrow>
        fits_c_int x \<and> fits_c_int y \<and> fits_c_int (x + w) \<and> fits_c_int (y + h))"

text \<open>
  One pass through the loop body, lines 200 to 218. Line 200 draws the region; line 209
  tests the centre and line 210 draws it; line 213 writes the record. When
  \<open>point_inside\<close> had an infinite coordinate, that coordinate is the centre's (the
  region passed line 200), so line 210 raises.
\<close>

definition frame_body :: "32 word rect \<Rightarrow> vars \<Rightarrow> frame \<Rightarrow> py_error + (vars \<times> frame_out)" where
  "frame_body rect v f =
     (if \<not> region_fits rect then Inl CvError
      else
        (case (if success f
               then (let center = center_of (roi f)
                     in case point_inside (py_rect rect) center of
                          Inl e \<Rightarrow> Inl e
                        | Inr None \<Rightarrow> Inl CvError
                        | Inr (Some (b, color)) \<Rightarrow>
                            if fits_c_int (fst center) \<and> fits_c_int (snd center)
                            then Inr (v\<lparr>in_roi := Some b\<rparr>,
                                      Some (fst center, snd center, b))
                            else Inl CvError)
               else Inr (v, None)) of
           Inl e \<Rightarrow> Inl e
         | Inr (v1, rec) \<Rightarrow>
             (case in_roi v1 of
                None \<Rightarrow> Inl NameError
              | Some b \<Rightarrow>
                  (if b
                   then (case prev_state v1 of
                           None \<Rightarrow> Inl NameError
                         | Some p \<Rightarrow>
                             Inr (v1\<lparr>prev_state := Some b\<rparr>,
                                  \<lparr>triggered = (b \<noteq> p), written = rec\<rparr>))
                   else Inr (v1\<lparr>prev_state := Some b\<rparr>,
                             \<lparr>triggered = False, written = rec\<rparr>)))))"

datatype ending = SourceExhausted | OperatorQuit | Raised py_error

text \<open>
  The loop over the frames. It ends when the source has no further frame, when the
  operator presses ESC (key code 27) at the end of a pass, or when a pass raises.
\<close>

fun tracking_loop :: "32 word rect \<Rightarrow> vars \<Rightarrow> frame list \<Rightarrow> frame_out list \<times> ending" where
  "tracking_loop rect v [] = ([], SourceExhausted)"
| "tracking_loop rect v (f # fs) =
     (case frame_body rect v f of
        Inl e \<Rightarrow> ([], Raised e)
      | Inr (v', out) \<Rightarrow>
          if key f = 27 then ([out], OperatorQuit)
          else (case tracking_loop rect v' fs of (outs, e) \<Rightarrow> (out # outs, e)))"

text \<open>
  A frame that passes the drawing calls: the region and the centre fit a C \<open>int\<close> and
  the containment test has an answer. \<open>inside\<close> is that answer.
\<close>

definition drawable :: "32 word rect \<Rightarrow> frame \<Rightarrow> bool" where
  "drawable rect f =
     (region_fits rect
      \<and> fits_c_int (fst (center_of (roi f))) \<and> fits_c_int (snd (center_of (roi f)))
      \<and> (case point_inside (py_rect rect) (center_of (roi f)) of
            Inr (Some r) \<Rightarrow> True | _ \<Rightarrow> False))"

definition inside :: "32 word rect \<Rightarrow> frame \<Rightarrow> bool" where
  "inside rect f =
     (case point_inside (py_rect rect) (center_of (roi f)) of
        Inr (Some r) \<Rightarrow> fst r | _ \<Rightarrow> False)"

text \<open>
  The specification's reading of the edge detector, position by position: a trigger
  belongs to position \<open>i\<close> exactly when the state at \<open>i\<close> is inside and the state
  before it is outside; \<open>p\<close> is the state before position \<open>0\<close>.
\<close>

definition rising_edges :: "bool \<Rightarrow> bool list \<Rightarrow> bool list" where
  "rising_edges p xs =
     map (\<lambda>i. xs ! i \<and> \<not> (if i = 0 then p else xs ! (i - 1))) [0..<length xs]"

text \<open>
  Six tracked frames against the region \<open>(10, 10, 20, 20)\<close> whose centroids are
  outside, outside, inside, inside, outside, inside.
\<close>

definition example_frames :: "frame list" where
  "example_frames =
     [\<lparr>success = True, roi = (0, 0, 4, 4), key = - 1\<rparr>,
      \<lparr>success = True, roi = (3, 5, 4, 4), key = - 1\<rparr>,
      \<lparr>success = True, roi = (8, 8, 4, 4), key = - 1\<rparr>,
      \<lparr>success = True, roi = (18, 18, 4, 4), key = - 1\<rparr>,
      \<lparr>success = True, roi = (30, 18, 4, 4), key = - 1\<rparr>,
      \<lparr>success = True, roi = (28, 28, 4, 4), key = - 1\<rparr>]"

text \<open>Three tracked frames whose centroids are inside, outside, inside.\<close>

definition inside_first_frames :: "frame list" where
  "inside_first_frames =
     [\<lparr>success = True, roi = (18, 18, 4, 4), key = - 1\<rparr>,
      \<lparr>success = True, roi = (0, 0, 4, 4), key = - 1\<rparr>,
      \<lparr>success = True, roi = (18, 18, 4, 4), key = - 1\<rparr>]"

section \<open>Waveform synthesis (stimulus.py)\<close>

text \<open>
  Samples are 64-bit floats in the program and 32-bit floats in the returned buffers;
  here they are real numbers and the arithmetic is exact. The draws of
  \<open>np.random.normal\<close> are an argument: \<open>draw i\<close> is the \<open>i\<close>-th sample drawn.
\<close>

text \<open>\<open>np.linspace(start, stop, num)\<close>, end point included.\<close>

definition linspace :: "real \<Rightarrow> real \<Rightarrow> nat \<Rightarrow> real list" where
  "linspace start stop num =
     map (\<lambda>i. start + real i * ((stop - start) / real (num - 1))) [0..<num]"

text \<open>
  The assignment \<open>xs[a:b] = v\<close> on a one-dimensional array: the slice is clipped to the
  array, a value of length one is broadcast, any other length mismatch raises
  \<open>ValueError\<close>.
\<close>

definition assign_slice :: "'a list \<Rightarrow> nat \<Rightarrow> nat \<Rightarrow> 'a list \<Rightarrow> py_error + 'a list" where
  "assign_slice xs a b v =
     (let a' = min a (length xs); b' = max a' (min b (length xs)); n = b' - a'
      in if length v = n then Inr (take a' xs @ v @ drop b' xs)
         else if length v = 1 then Inr (take a' xs @ replicate n (hd v) @ drop b' xs)
         else Inl ValueError)"

text \<open>The product \<open>xs * ys\<close> of two one-dimensional arrays.\<close>

definition np_mul :: "real list \<Rightarrow> real list \<Rightarrow> py_error + real list" where
  "np_mul xs ys =
     (if length xs = length ys then Inr (map2 (*) xs ys)
      else if length ys = 1 then Inr (map (\<lambda>x. x * hd ys) xs)
      else if length xs = 1 then Inr (map (\<lambda>y. hd xs * y) ys)
      else Inl ValueError)"

definition noise_generator :: "real \<Rightarrow> nat \<Rightarrow> nat \<Rightarrow> (nat \<Rightarrow> real) \<Rightarrow> py_error + real list" where
  "noise_generator amplitude duration fs draw =
     (let noise = map draw [0..<fs * duration];
          wave = map (\<lambda>n. amplitude * n) noise;
          window = nat \<lfloor>real fs * 0.25\<rfloor>;
          ramp_vector = linspace 0 amplitude window
      in case assign_slice wave 0 window ramp_vector of
           Inl e \<Rightarrow> Inl e
         | Inr wave1 \<Rightarrow>
             (let end_window = length wave1 - window;
                  end_ramp = rev ramp_vector
              in case assign_slice wave1 end_window (length wave1) end_ramp of
                   Inl e \<Rightarrow> Inl e
                 | Inr wave2 \<Rightarrow> np_mul wave2 noise))"

definition stim_fs :: nat where
  "stim_fs = 44100"

definition stim_duration :: nat where
  "stim_duration = 10"

text \<open>The local \<open>period\<close> of \<open>wave_generator\<close>: the rise followed by the base level.\<close>

definition period :: "real \<Rightarrow> real \<Rightarrow> real list" where
  "period base peak =
     (let rise = linspace base peak (nat \<lfloor>real stim_fs * 0.4\<rfloor>);
          base_vec = replicate (nat \<lfloor>real stim_fs * 0.6\<rfloor>) base
      in rise @ base_vec)"

text \<open>The local \<open>wave\<close> before the noise is applied: \<open>np.tile(period, duration)\<close>.\<close>

definition envelope :: "real \<Rightarrow> real \<Rightarrow> real list" where
  "envelope base peak = concat (replicate stim_duration (period base peak))"

definition wave_generator :: "real \<Rightarrow> real \<Rightarrow> (nat \<Rightarrow> real) \<Rightarrow> py_error + real list" where
  "wave_generator base peak draw =
     (let wave = envelope base peak;
          noise = map draw [0..<stim_fs * stim_duration]
      in np_mul wave noise)"

section \<open>Background buffer (main.py, lines 137 to 142)\<close>




section \<open>Auxiliary notions for the statements\<close>

text \<open>
  The value of the local \<open>wave\<close> of \<open>noise_generator\<close> after both ramps are written and
  before the final product with the noise, in closed form (for a duration of at least
  one second, so that the two ramps do not overlap).
\<close>

definition ramped :: "real \<Rightarrow> nat \<Rightarrow> nat \<Rightarrow> (nat \<Rightarrow> real) \<Rightarrow> real list" where
  "ramped amplitude duration fs draw =
     linspace 0 amplitude (fs div 4)
     @ map (\<lambda>i. amplitude * draw i) [fs div 4..<fs * duration - fs div 4]
     @ rev (linspace 0 amplitude (fs div 4))"

text \<open>Sample \<open>i\<close> of a produced buffer, when there is one.\<close>

definition sample_of :: "py_error + real list \<Rightarrow> nat \<Rightarrow> real option" where
  "sample_of r i =
     (case r of Inl e \<Rightarrow> None | Inr w \<Rightarrow> if i < length w then Some (w ! i) else None)"

text \<open>Noise draws at the mean \<open>0.5\<close>, except for one draw of \<open>1.2\<close>.\<close>

definition loud_draw :: "nat \<Rightarrow> real" where
  "loud_draw i = (if i = 20000 then 6 / 5 else 1 / 2)"

section \<open>Calibration (stimulus.py, isfloat and calibrate)\<close>

text \<open>
  A Python float: a finite value, an infinity or a not-a-number. The initial amplitude
  and the result of \<open>float()\<close> are such values.
\<close>

datatype pyfloat = Finite real | PosInf | NegInf | NaN

text \<open>
  A line typed by the operator is represented by what the built-in \<open>float()\<close> makes of
  it: the float it returns, or the fact that it raises \<open>ValueError\<close> (as it does for
  the empty line). How \<open>float()\<close> reads the characters of a line is not modelled.
\<close>

datatype line = Parses pyfloat | Rejected

text \<open>\<open>isfloat\<close>: whether \<open>float(num)\<close> returns instead of raising \<open>ValueError\<close>.\<close>

definition isfloat :: "line \<Rightarrow> bool" where
  "isfloat num = (case num of Parses x \<Rightarrow> True | Rejected \<Rightarrow> False)"

text \<open>
  The buffer that \<open>noise_generator(amplitude, 5, 44100)\<close> returns. For a finite
  amplitude it is the list of samples of \<open>noise_generator\<close> above. For an infinite or
  not-a-number amplitude the call returns as well, with samples that are not real
  numbers; such a buffer is represented by the amplitude it was made from.
\<close>

datatype buffer = Samples "real list" | Unrepresented pyfloat

definition generated :: "pyfloat \<Rightarrow> (nat \<Rightarrow> real) \<Rightarrow> py_error + buffer" where
  "generated amplitude draw =
     (let duration = 5; fs = 44100
      in case amplitude of
           Finite a \<Rightarrow>
             (case noise_generator a duration fs draw of
                Inl e \<Rightarrow> Inl e
              | Inr wave \<Rightarrow> Inr (Samples wave))
         | _ \<Rightarrow> Inr (Unrepresented amplitude))"

text \<open>
  What the operator hears and types, in order: a buffer written to the audio stream (the
  write blocks until the whole buffer is played), a line read by \<open>input()\<close>.
\<close>

datatype event = Write buffer | Input line

text \<open>How a call of \<open>calibrate\<close> ends: it returns an amplitude or it raises.\<close>

datatype outcome = Returned pyfloat | Failed py_error

text \<open>
  The loop of \<open>calibrate\<close>. The operator's lines are a list; \<open>input()\<close> on an exhausted
  list raises \<open>EOFError\<close>. \<open>draws k\<close> is the noise of the \<open>k\<close>-th call of
  \<open>noise_generator\<close>.
\<close>

fun calibrate_loop ::
  "pyfloat \<Rightarrow> buffer \<Rightarrow> nat \<Rightarrow> (nat \<Rightarrow> nat \<Rightarrow> real) \<Rightarrow> line list \<Rightarrow> event list \<times> outcome" where
  "calibrate_loop amplitude wave k draws [] = ([Write wave], Failed EOFError)"
| "calibrate_loop amplitude wave k draws (user_input # rest) =
     (if \<not> isfloat user_input then ([Write wave, Input user_input], Returned amplitude)
      else (case user_input of
              Rejected \<Rightarrow> ([Write wave, Input user_input], Failed ValueError)
            | Parses a \<Rightarrow>
                (case generated a (draws k) of
                   Inl e \<Rightarrow> ([Write wave, Input user_input], Failed e)
                 | Inr wave' \<Rightarrow>
                     (case calibrate_loop a wave' (Suc k) draws rest of
                        (tr, r) \<Rightarrow> (Write wave # Input user_input # tr, r)))))"

definition calibrate ::
  "pyfloat \<Rightarrow> (nat \<Rightarrow> nat \<Rightarrow> real) \<Rightarrow> line list \<Rightarrow> event list \<times> outcome" where
  "calibrate amplitude draws inputs =
     (case generated amplitude (draws 0) of
        Inl e \<Rightarrow> ([], Failed e)
      | Inr wave \<Rightarrow> calibrate_loop amplitude wave 1 draws inputs)"

definition steady_draws :: "nat \<Rightarrow> nat \<Rightarrow> real" where
  "steady_draws k i = 1 / 2"

section \<open>Audio workers and shutdown (main.py, trigger\_stim, play\_sound, lines 228 to 239)\<close>

text \<open>
  The two workers run as processes of their own and share two events with the main
  process: \<open>play_stim\<close> and \<open>end_stream\<close>. Each worker is modelled as a sequential
  program with a program counter; one step runs the statements up to the next point
  where the worker reads an event or writes a buffer. A blocking \<open>stream.write\<close> is one
  step, so time is counted in buffer writes. \<open>play_stim.wait()\<close> with the event clear
  is a step that changes nothing: the worker stays where it is. Closing a stream that is
  already closed is taken to do nothing.

  No statement of the program clears \<open>end_stream\<close>, and the main loop sets no trigger
  after it has set \<open>end_stream\<close> (it leaves the loop at once). After the loop the main
  process calls \<open>terminate()\<close> on both workers: a worker that is still running is
  killed where it stands, and nothing closes what it holds.
\<close>

datatype stim_pc = StWait | StWrite | StClear | StCheck | StDone | StKilled

datatype bg_pc = BgCheck | BgWrite | BgClose | BgDone | BgKilled

record audio =
  play_stim :: bool
  end_stream :: bool
  st_pc :: stim_pc
  st_stream_open :: bool
  st_audio_up :: bool
  st_writes :: nat
  bg_pc :: bg_pc
  bg_stream_open :: bool
  bg_audio_up :: bool
  bg_writes :: nat

text \<open>
  Both workers started: each has created its \<open>PyAudio\<close> instance, the background
  worker has opened its stream, the stimulus worker is about to wait.
\<close>

definition session_start :: audio where
  "session_start =
     \<lparr>play_stim = False, end_stream = False,
      st_pc = StWait, st_stream_open = False, st_audio_up = True, st_writes = 0,
      bg_pc = BgCheck, bg_stream_open = True, bg_audio_up = True, bg_writes = 0\<rparr>"

definition main_set_trigger :: "audio \<Rightarrow> audio" where
  "main_set_trigger s = s\<lparr>play_stim := True\<rparr>"

definition main_set_end :: "audio \<Rightarrow> audio" where
  "main_set_end s = s\<lparr>end_stream := True\<rparr>"

text \<open>Lines 238 and 239: \<open>stim_thread.terminate()\<close> and \<open>sound_thread.terminate()\<close>.\<close>

definition main_terminate :: "audio \<Rightarrow> audio" where
  "main_terminate s =
     s\<lparr>st_pc := (if st_pc s = StDone then StDone else StKilled),
       bg_pc := (if bg_pc s = BgDone then BgDone else BgKilled)\<rparr>"

text \<open>\<open>trigger_stim\<close>, lines 45 to 60.\<close>

definition stim_step :: "audio \<Rightarrow> audio" where
  "stim_step s =
     (case st_pc s of
        StWait \<Rightarrow> if play_stim s then s\<lparr>st_stream_open := True, st_pc := StWrite\<rparr> else s
      | StWrite \<Rightarrow> s\<lparr>st_writes := st_writes s + 1, st_stream_open := False, st_pc := StClear\<rparr>
      | StClear \<Rightarrow> s\<lparr>play_stim := False, st_pc := StCheck\<rparr>
      | StCheck \<Rightarrow>
          if end_stream s
          then s\<lparr>st_stream_open := False, st_audio_up := False, st_pc := StDone\<rparr>
          else s\<lparr>st_pc := StWait\<rparr>
      | StDone \<Rightarrow> s
      | StKilled \<Rightarrow> s)"

text \<open>\<open>play_sound\<close>, lines 71 to 77.\<close>

definition bg_step :: "audio \<Rightarrow> audio" where
  "bg_step s =
     (case bg_pc s of
        BgCheck \<Rightarrow> if end_stream s then s\<lparr>bg_pc := BgClose\<rparr> else s\<lparr>bg_pc := BgWrite\<rparr>
      | BgWrite \<Rightarrow> s\<lparr>bg_writes := bg_writes s + 1, bg_pc := BgCheck\<rparr>
      | BgClose \<Rightarrow> s\<lparr>bg_stream_open := False, bg_audio_up := False, bg_pc := BgDone\<rparr>
      | BgDone \<Rightarrow> s
      | BgKilled \<Rightarrow> s)"

section \<open>Properties of the containment test\<close>

lemma rect_test:
  fixes x y w h px py :: "'a::linordered_idom"
  assumes "0 < w" "0 < h"
  shows "(0 \<le> pointPolygonTest [(x, y), (x + w, y), (x + w, y + h), (x, y + h)] (px, py))
         = (x \<le> px \<and> px \<le> x + w \<and> y \<le> py \<and> py \<le> y + h)"
  using assms
  unfolding pointPolygonTest_def
  by (simp add: on_edge_def crossing_def cross_def zero_less_mult_iff mult_less_0_iff
        min_def max_def)

lemma rne_small: "a \<le> 2 ^ p \<Longrightarrow> rne p a = a"
  by (simp add: rne_def)

lemma np_float32_exact:
  assumes "exact_float32 n"
  shows "np_float32 n = Inr (Some n)"
proof -
  have a: "\<bar>n\<bar> \<le> 2 ^ 24" using assms by (simp add: exact_float32_def)
  have "(2::int) ^ 24 \<le> 2 ^ 53" by simp
  then have b: "\<bar>n\<bar> \<le> 2 ^ 53" using a by linarith
  have c: "\<not> (2::int) ^ 1024 \<le> \<bar>n\<bar>" "\<not> (2::int) ^ 128 \<le> \<bar>n\<bar>"
    using a by simp_all
  have "sgn n * \<bar>n\<bar> = n" by (simp add: mult_sgn_abs)
  then show ?thesis
    unfolding np_float32_def Let_def rne_small [OF b] rne_small [OF a]
    using c by simp
qed

lemma np_float32_list_exact:
  assumes "\<forall>n \<in> set ns. exact_float32 n"
  shows "np_float32_list ns = Inr (Some ns)"
  using assms by (induction ns) (simp_all add: np_float32_exact)

lemma point_inside_exact:
  assumes "0 < w" and "0 < h"
    and "exact_float32 x" and "exact_float32 y" and "exact_float32 (x + w)"
    and "exact_float32 (y + h)" and "exact_float32 px" and "exact_float32 py"
  shows "point_inside (x, y, w, h) (px, py) =
           Inr (Some (if x \<le> px \<and> px \<le> x + w \<and> y \<le> py \<and> py \<le> y + h
                      then (True, (255, 0, 0)) else (False, (0, 255, 0))))"
proof -
  have "np_float32_list [x, y, x + w, y, x + w, y + h, x, y + h, px, py]
          = Inr (Some [x, y, x + w, y, x + w, y + h, x, y + h, px, py])"
    by (rule np_float32_list_exact) (use assms in simp)
  then show ?thesis
    using rect_test [OF assms(1,2), of x y px py]
    by (simp add: point_inside_def Let_def)
qed

text \<open>
  Claim C3, amended. For a region of positive width and height and integer coordinates
  that 32-bit floats hold without rounding (magnitude at most \<open>2^24\<close>, for the corners
  and for the point), \<open>point_inside\<close> answers inside exactly for the points of the
  closed rectangle: true in the interior and on the boundary, false strictly outside.
\<close>

theorem point_inside_closed_rectangle:
  assumes "0 < w" and "0 < h"
    and "exact_float32 x" and "exact_float32 y" and "exact_float32 (x + w)"
    and "exact_float32 (y + h)" and "exact_float32 px" and "exact_float32 py"
  shows "\<exists>color. point_inside (x, y, w, h) (px, py) =
           Inr (Some ((x \<le> px \<and> px \<le> x + w \<and> y \<le> py \<and> py \<le> y + h), color))"
  using point_inside_exact [OF assms] by simp

theorem point_inside_closed_rectangle_witness:
  "(0::int) < 20 \<and> exact_float32 10 \<and> exact_float32 (10 + 20) \<and> exact_float32 15
   \<and> exact_float32 12 \<and> exact_float32 31
   \<and> (\<exists>color. point_inside (10, 10, 20, 20) (10, 15) = Inr (Some (True, color)))
   \<and> (\<exists>color. point_inside (10, 10, 20, 20) (12, 15) = Inr (Some (True, color)))
   \<and> (\<exists>color. point_inside (10, 10, 20, 20) (31, 15) = Inr (Some (False, color)))"
proof -
  have e: "exact_float32 10" "exact_float32 (10 + 20)" "exact_float32 15" "exact_float32 12"
      "exact_float32 31"
    by (simp_all add: exact_float32_def)
  have p: "(0::int) < 20" by simp
  show ?thesis
    using point_inside_closed_rectangle [OF p p e(1) e(1) e(2) e(2) e(1) e(3)]
      point_inside_closed_rectangle [OF p p e(1) e(1) e(2) e(2) e(4) e(3)]
      point_inside_closed_rectangle [OF p p e(1) e(1) e(2) e(2) e(5) e(3)]
      e p
    by simp
qed

lemma np_float32_rounds_down: "np_float32 16777217 = Inr (Some 16777216)"
  by (simp add: np_float32_def rne_def Let_def bit_length.simps)

text \<open>
  Claim C3 as stated fails: the point \<open>(16777217, 5)\<close> is strictly to the right of the
  region \<open>(0, 0, 16777216, 10)\<close>, the conversion to 32-bit floats rounds its abscissa to
  \<open>16777216\<close>, onto the right edge, and \<open>point_inside\<close> answers inside.
\<close>

theorem point_inside_rounds_onto_edge:
  "point_inside (0, 0, 16777216, 10) (16777217, 5) = Inr (Some (True, (255, 0, 0)))
   \<and> (0::int) + 16777216 < 16777217"
  using rect_test [of "16777216::int" 10 0 0 16777216 5]
  by (simp add: point_inside_def Let_def np_float32_rounds_down np_float32_exact
      exact_float32_def)

section \<open>Properties of the tracking loop\<close>

lemma rising_edges_Nil: "rising_edges p [] = []"
  by (simp add: rising_edges_def)

lemma rising_edges_Cons: "rising_edges p (x # xs) = (x \<and> \<not> p) # rising_edges x xs"
proof -
  have "[0..<length (x # xs)] = 0 # map Suc [0..<length xs]"
    by (simp add: upt_conv_Cons map_Suc_upt del: upt_Suc)
  then show ?thesis
    by (simp add: rising_edges_def nth_Cons' del: upt_Suc)
qed

text \<open>A tracked frame outside the region never reads \<open>prev_state\<close>.\<close>

lemma frame_body_outside:
  assumes "success f" and "drawable rect f" and "\<not> inside rect f"
  shows "frame_body rect v f =
           Inr (v\<lparr>in_roi := Some False, prev_state := Some False\<rparr>,
                \<lparr>triggered = False,
                 written = Some (fst (center_of (roi f)), snd (center_of (roi f)), False)\<rparr>)"
  using assms
  by (auto simp: frame_body_def drawable_def inside_def Let_def
      split: prod.splits sum.splits option.splits)

text \<open>A tracked frame inside the region reads \<open>prev_state\<close>.\<close>

lemma frame_body_inside:
  assumes "success f" and "drawable rect f" and "inside rect f"
  shows "frame_body rect v f =
           (case prev_state v of
              None \<Rightarrow> Inl NameError
            | Some p \<Rightarrow>
                Inr (v\<lparr>in_roi := Some True, prev_state := Some True\<rparr>,
                     \<lparr>triggered = (\<not> p),
                      written = Some (fst (center_of (roi f)), snd (center_of (roi f)), True)\<rparr>))"
  using assms
  by (auto simp: frame_body_def drawable_def inside_def Let_def
      split: prod.splits sum.splits option.splits)

text \<open>
  After a completed pass both names hold the same value. A frame on which the tracker
  fails then leaves the names alone, sets no trigger and writes no record.
\<close>

lemma frame_body_lost:
  assumes "\<not> success f" and "in_roi v = Some b" and "prev_state v = Some b"
    and "region_fits rect"
  shows "frame_body rect v f = Inr (v, \<lparr>triggered = False, written = None\<rparr>)"
  using assms
  by (cases b) (simp_all add: frame_body_def)

text \<open>
  From an assigned previous state, or from the start when the first frame is outside,
  the loop sets the trigger exactly at the positions where the containment state is
  inside and the state before it is outside.
\<close>

lemma edge_detector_rising_edges:
  assumes "\<forall>f \<in> set fs. success f \<and> key f \<noteq> 27 \<and> drawable rect f"
    and "prev_state v = None \<longrightarrow> fs = [] \<or> \<not> inside rect (hd fs)"
  shows "snd (tracking_loop rect v fs) = SourceExhausted
         \<and> map triggered (fst (tracking_loop rect v fs))
             = rising_edges (prev_state v = Some True) (map (inside rect) fs)"
  using assms
proof (induction fs arbitrary: v)
  case Nil
  show ?case by (simp add: rising_edges_Nil)
next
  case (Cons f fs)
  have f: "success f" "key f \<noteq> 27" "drawable rect f"
    and rest: "\<forall>g \<in> set fs. success g \<and> key g \<noteq> 27 \<and> drawable rect g"
    using Cons.prems(1) by simp_all
  show ?case
  proof (cases "inside rect f")
    case False
    let ?v = "v\<lparr>in_roi := Some False, prev_state := Some False\<rparr>"
    have ih: "snd (tracking_loop rect ?v fs) = SourceExhausted
         \<and> map triggered (fst (tracking_loop rect ?v fs))
             = rising_edges (prev_state ?v = Some True) (map (inside rect) fs)"
      by (rule Cons.IH) (use rest in simp_all)
    show ?thesis
      using ih f False
      by (cases "tracking_loop rect ?v fs") (simp add: frame_body_outside rising_edges_Cons)
  next
    case True
    then obtain p where p: "prev_state v = Some p"
      using Cons.prems(2) by (cases "prev_state v") simp_all
    let ?v = "v\<lparr>in_roi := Some True, prev_state := Some True\<rparr>"
    have ih: "snd (tracking_loop rect ?v fs) = SourceExhausted
         \<and> map triggered (fst (tracking_loop rect ?v fs))
             = rising_edges (prev_state ?v = Some True) (map (inside rect) fs)"
      by (rule Cons.IH) (use rest in simp_all)
    show ?thesis
      using ih f True p
      by (cases "tracking_loop rect ?v fs") (simp add: frame_body_inside rising_edges_Cons)
  qed
qed

text \<open>The containment test on the region and the boxes of the examples.\<close>

lemma example_region: "py_rect (10, 10, 20, 20) = (10, 10, 20, 20)"
  by (simp add: py_rect_def)

lemma example_centers:
  "center_of (0, 0, 4, 4) = (2, 2)" "center_of (3, 5, 4, 4) = (5, 7)"
  "center_of (8, 8, 4, 4) = (10, 10)" "center_of (18, 18, 4, 4) = (20, 20)"
  "center_of (30, 18, 4, 4) = (32, 20)" "center_of (28, 28, 4, 4) = (30, 30)"
  by (simp_all add: center_of_def py_rect_def int_half_def)

lemma example_tests:
  "point_inside (10, 10, 20, 20) (2, 2) = Inr (Some (False, (0, 255, 0)))"
  "point_inside (10, 10, 20, 20) (5, 7) = Inr (Some (False, (0, 255, 0)))"
  "point_inside (10, 10, 20, 20) (10, 10) = Inr (Some (True, (255, 0, 0)))"
  "point_inside (10, 10, 20, 20) (20, 20) = Inr (Some (True, (255, 0, 0)))"
  "point_inside (10, 10, 20, 20) (32, 20) = Inr (Some (False, (0, 255, 0)))"
  "point_inside (10, 10, 20, 20) (30, 30) = Inr (Some (True, (255, 0, 0)))"
  by (simp_all add: point_inside_exact exact_float32_def)

lemma example_region_fits: "region_fits (10, 10, 20, 20)"
  by (simp add: region_fits_def example_region fits_c_int_def)

lemma example_drawable:
  "\<forall>f \<in> set example_frames. success f \<and> key f \<noteq> 27 \<and> drawable (10, 10, 20, 20) f"
  by (simp add: example_frames_def drawable_def example_region_fits example_region
      example_centers example_tests fits_c_int_def)

lemma example_states:
  "map (inside (10, 10, 20, 20)) example_frames = [False, False, True, True, False, True]"
  by (simp add: example_frames_def inside_def example_region example_centers example_tests)

text \<open>
  The sequence outside, outside, inside, inside, outside, inside of the specification,
  run from the start of the program: two triggers, at positions 2 and 5.
\<close>

lemma example_triggers:
  "snd (tracking_loop (10, 10, 20, 20) initial_vars example_frames) = SourceExhausted
   \<and> map triggered (fst (tracking_loop (10, 10, 20, 20) initial_vars example_frames))
       = [False, False, True, False, False, True]"
proof -
  have h: "\<not> inside (10, 10, 20, 20) (hd example_frames)"
    using example_states by (simp add: example_frames_def)
  then have b: "prev_state initial_vars = None \<longrightarrow>
        example_frames = [] \<or> \<not> inside (10, 10, 20, 20) (hd example_frames)"
    by simp
  have r: "rising_edges (prev_state initial_vars = Some True) [False, False, True, True, False, True]
      = [False, False, True, False, False, True]"
    by (simp add: rising_edges_Cons rising_edges_Nil initial_vars_def)
  show ?thesis
    using edge_detector_rising_edges [OF example_drawable b] example_states r by simp
qed

lemma frame_body_examples:
  "frame_body (10, 10, 20, 20) initial_vars \<lparr>success = True, roi = (18, 18, 4, 4), key = - 1\<rparr>
     = Inl NameError"
  "frame_body (10, 10, 20, 20) initial_vars \<lparr>success = False, roi = (0, 0, 0, 0), key = - 1\<rparr>
     = Inl NameError"
  by (simp_all add: frame_body_def example_region_fits example_region example_centers
      example_tests fits_c_int_def initial_vars_def)

text \<open>
  Claim C1. The claim is for every sequence of containment states. On the sequence
  inside, outside, inside, run from the start of the program, the change from outside to
  inside at position 2 sets no trigger: the first pass reads the unassigned name
  \<open>prev_state\<close> and the loop ends with \<open>NameError\<close> before the later frames are read.
\<close>

theorem inside_first_sequence_raises:
  "map (inside (10, 10, 20, 20)) inside_first_frames = [True, False, True]
   \<and> tracking_loop (10, 10, 20, 20) initial_vars inside_first_frames = ([], Raised NameError)"
  by (simp add: inside_first_frames_def inside_def example_region example_centers
      example_tests frame_body_examples)

text \<open>
  Claim C2. The claim asks for \<open>prev_state\<close> to be assigned before the loop. The
  program does not assign it: when the first tracked frame has its centroid inside the
  region, the comparison reads the unassigned name and the loop ends with
  \<open>NameError\<close>, before any trigger is set.
\<close>

theorem first_frame_inside_raises:
  "tracking_loop (10, 10, 20, 20) initial_vars
     [\<lparr>success = True, roi = (18, 18, 4, 4), key = - 1\<rparr>] = ([], Raised NameError)"
  by (simp add: frame_body_examples)

text \<open>
  Claim C4. The claim asks that a tracker failure on any frame, the first included, is
  skipped without an error. When the tracker fails before any frame was tracked, the
  edge test reads the unassigned name \<open>in_roi\<close> and the loop ends with \<open>NameError\<close>;
  the frames that follow are never processed.
\<close>

theorem first_frame_lost_raises:
  "tracking_loop (10, 10, 20, 20) initial_vars
     [\<lparr>success = False, roi = (0, 0, 0, 0), key = - 1\<rparr>,
      \<lparr>success = True, roi = (0, 0, 4, 4), key = - 1\<rparr>] = ([], Raised NameError)"
  by (simp add: frame_body_examples)

section \<open>Properties of the synthesised buffers\<close>

lemma window_div: "nat \<lfloor>real fs * 0.25\<rfloor> = fs div 4"
proof -
  have "real fs * 0.25 = real fs / real 4" by simp
  then have "\<lfloor>real fs * 0.25\<rfloor> = \<lfloor>real fs / real 4\<rfloor>" by simp
  also have "\<dots> = int (fs div 4)" by (simp only: floor_divide_of_nat_eq)
  finally show ?thesis by simp
qed

lemma stim_lengths:
  "nat \<lfloor>real stim_fs * 0.4\<rfloor> = 17640" "nat \<lfloor>real stim_fs * 0.6\<rfloor> = 26460"
  "nat \<lfloor>real stim_fs * 0.5\<rfloor> = 22050"
  by (simp_all add: stim_fs_def)

lemma length_linspace: "length (linspace a b n) = n"
  by (simp add: linspace_def)

lemma nth_linspace: "i < n \<Longrightarrow> linspace a b n ! i = a + real i * ((b - a) / real (n - 1))"
  by (simp add: linspace_def)




lemma linspace_strict_mono:
  assumes "a < b" and "i < j" and "j < n"
  shows "linspace a b n ! i < linspace a b n ! j"
proof -
  have "1 < n" using assms by simp
  then have "0 < (b - a) / real (n - 1)" using assms(1) by simp
  then have "real i * ((b - a) / real (n - 1)) < real j * ((b - a) / real (n - 1))"
    using assms(2) by (intro mult_strict_right_mono) simp_all
  then show ?thesis using assms by (simp add: nth_linspace)
qed

lemma linspace_between:
  assumes "i < n"
  shows "min a b \<le> linspace a b n ! i \<and> linspace a b n ! i \<le> max a b"
proof (cases "n = 1")
  case True
  then show ?thesis using assms by (simp add: nth_linspace)
next
  case False
  then have n: "1 < n" using assms by simp
  define t where "t = real i / real (n - 1)"
  define d where "d = t * (b - a)"
  have t: "0 \<le> t" "t \<le> 1" using assms n by (simp_all add: t_def)
  have eq: "linspace a b n ! i = a + d"
    using assms by (simp add: nth_linspace t_def d_def)
  show ?thesis
  proof (cases "a \<le> b")
    case True
    have "0 \<le> d" using True t by (simp add: d_def)
    moreover have "d \<le> b - a"
      using mult_right_mono [of t 1 "b - a"] t True by (simp add: d_def)
    ultimately have "a \<le> a + d \<and> a + d \<le> b" by linarith
    then show ?thesis using True eq by simp
  next
    case False
    have "d \<le> 0" using False t by (simp add: d_def mult_nonneg_nonpos)
    moreover have "b - a \<le> d"
      using mult_right_mono_neg [of t 1 "b - a"] t False by (simp add: d_def)
    ultimately have "b \<le> a + d \<and> a + d \<le> a" by linarith
    then show ?thesis using False eq by simp
  qed
qed

lemma concat_replicate_nth:
  assumes "length p = n" and "k < m" and "i < n"
  shows "concat (replicate m p) ! (k * n + i) = p ! i"
  using assms(2)
proof (induction k arbitrary: m)
  case 0
  then obtain m' where "m = Suc m'" by (cases m) simp_all
  then show ?case using assms(1,3) by (simp add: nth_append)
next
  case (Suc k)
  then obtain m' where m: "m = Suc m'" by (cases m) simp_all
  then have "k < m'" using Suc.prems by simp
  then have "concat (replicate m' p) ! (k * n + i) = p ! i" by (rule Suc.IH)
  then show ?case using assms(1) m by (simp add: nth_append)
qed

lemma length_concat_replicate: "length (concat (replicate m p)) = m * length p"
  by (induction m) simp_all

lemma period_eq: "period base peak = linspace base peak 17640 @ replicate 26460 base"
  unfolding period_def Let_def stim_lengths by (rule refl)

lemma length_period: "length (period base peak) = 44100"
  by (simp add: period_eq length_linspace)


lemma period_plateau: "17640 \<le> i \<Longrightarrow> i < 44100 \<Longrightarrow> period base peak ! i = base"
  by (simp add: period_eq length_linspace nth_append)

lemma length_envelope: "length (envelope base peak) = 441000"
  by (simp add: envelope_def length_concat_replicate length_period stim_duration_def)

lemma envelope_nth: "k < 10 \<Longrightarrow> i < 44100 \<Longrightarrow> envelope base peak ! (k * 44100 + i) = period base peak ! i"
  unfolding envelope_def stim_duration_def
  by (rule concat_replicate_nth) (simp_all add: length_period)

lemma wave_generator_eq:
  "wave_generator base peak draw =
     Inr (map (\<lambda>i. envelope base peak ! i * draw i) [0..<441000])"
proof -
  have "map2 (*) (envelope base peak) (map draw [0..<441000])
        = map (\<lambda>i. envelope base peak ! i * draw i) [0..<441000]"
    by (rule nth_equalityI) (simp_all add: length_envelope)
  then show ?thesis
    by (simp add: wave_generator_def np_mul_def Let_def length_envelope stim_fs_def stim_duration_def)
qed



lemma assign_slice_exact:
  assumes "a \<le> b" and "b \<le> length xs" and "length v = b - a"
  shows "assign_slice xs a b v = Inr (take a xs @ v @ drop b xs)"
  using assms by (simp add: assign_slice_def Let_def min_def max_def)

lemma np_mul_same:
  assumes "length xs = length ys"
  shows "np_mul xs ys = Inr (map2 (*) xs ys)"
  using assms by (simp add: np_mul_def)

lemma length_ramped:
  assumes "0 < duration"
  shows "length (ramped amplitude duration fs draw) = fs * duration"
proof -
  have "fs \<le> fs * duration" using assms by simp
  then have "2 * (fs div 4) \<le> fs * duration" by linarith
  then show ?thesis by (simp add: ramped_def length_linspace)
qed

lemma noise_generator_eq:
  assumes "0 < duration"
  shows "noise_generator amplitude duration fs draw =
           Inr (map2 (*) (ramped amplitude duration fs draw) (map draw [0..<fs * duration]))"
proof -
  define w where "w = fs div 4"
  define n where "n = fs * duration"
  define wave where "wave = map (\<lambda>x. amplitude * x) (map draw [0..<n])"
  define ramp where "ramp = linspace 0 amplitude w"
  have "fs \<le> n" using assms by (simp add: n_def)
  then have wn: "2 * w \<le> n" unfolding w_def by linarith
  have lr: "length ramp = w" by (simp add: ramp_def length_linspace)
  have lw: "length wave = n" by (simp add: wave_def)
  have s1: "assign_slice wave 0 w ramp = Inr (ramp @ drop w wave)"
    using assign_slice_exact [of 0 w wave ramp] wn lr lw by simp
  have l1: "length (ramp @ drop w wave) = n" using wn lr lw by simp
  have s2: "assign_slice (ramp @ drop w wave) (n - w) n (rev ramp)
              = Inr (take (n - w) (ramp @ drop w wave) @ rev ramp)"
    using assign_slice_exact [of "n - w" n "ramp @ drop w wave" "rev ramp"] wn lr l1 by simp
  have mid: "take (n - w) (ramp @ drop w wave) = ramp @ map (\<lambda>i. amplitude * draw i) [w..<n - w]"
  proof -
    have "take (n - w) (ramp @ drop w wave) = ramp @ take (n - w - w) (drop w wave)"
      using lr wn by simp
    moreover have "take (n - w - w) (drop w wave) = map (\<lambda>i. amplitude * draw i) [w..<n - w]"
      by (rule nth_equalityI) (use wn lw in \<open>auto simp: wave_def\<close>)
    ultimately show ?thesis by simp
  qed
  have r: "take (n - w) (ramp @ drop w wave) @ rev ramp = ramped amplitude duration fs draw"
    unfolding mid by (simp add: ramped_def ramp_def w_def n_def)
  have lf: "length (ramped amplitude duration fs draw) = length (map draw [0..<n])"
    using length_ramped [OF assms] by (simp add: n_def)
  have "noise_generator amplitude duration fs draw =
          (case assign_slice wave 0 w ramp of
             Inl e \<Rightarrow> Inl e
           | Inr wave1 \<Rightarrow>
               (case assign_slice wave1 (length wave1 - w) (length wave1) (rev ramp) of
                  Inl e \<Rightarrow> Inl e
                | Inr wave2 \<Rightarrow> np_mul wave2 (map draw [0..<n])))"
    unfolding noise_generator_def Let_def window_div w_def n_def wave_def ramp_def
    by (rule refl)
  also have "\<dots> = np_mul (ramped amplitude duration fs draw) (map draw [0..<n])"
    by (simp only: s1 sum.case l1 s2 r)
  also have "\<dots> = Inr (map2 (*) (ramped amplitude duration fs draw) (map draw [0..<n]))"
    using lf by (rule np_mul_same)
  finally show ?thesis by (simp only: n_def)
qed

lemma map2_mult_bounded:
  fixes xs ys :: "real list"
  assumes "\<forall>x \<in> set xs. \<bar>x\<bar> \<le> 1" and "\<forall>y \<in> set ys. \<bar>y\<bar> \<le> 1"
  shows "\<forall>s \<in> set (map2 (*) xs ys). - 1 \<le> s \<and> s \<le> 1"
proof
  fix s assume "s \<in> set (map2 (*) xs ys)"
  then obtain x y where xy: "(x, y) \<in> set (zip xs ys)" and s: "s = x * y" by auto
  have "\<bar>x\<bar> \<le> 1" "\<bar>y\<bar> \<le> 1"
    using xy assms by (auto dest: set_zip_leftD set_zip_rightD)
  then have "\<bar>x\<bar> * \<bar>y\<bar> \<le> 1" by (simp add: mult_le_one)
  then have "\<bar>s\<bar> \<le> 1" by (simp add: s abs_mult)
  then show "- 1 \<le> s \<and> s \<le> 1" by (simp add: abs_le_iff)
qed

lemma linspace_unit:
  assumes "0 \<le> a" "a \<le> 1" "0 \<le> b" "b \<le> 1"
  shows "\<forall>x \<in> set (linspace a b n). \<bar>x\<bar> \<le> 1"
proof
  fix x assume "x \<in> set (linspace a b n)"
  then obtain i where i: "i < n" and x: "x = linspace a b n ! i"
    by (auto simp: in_set_conv_nth length_linspace)
  have "min a b \<le> x \<and> x \<le> max a b" unfolding x using i by (rule linspace_between)
  then show "\<bar>x\<bar> \<le> 1" using assms by (simp add: min_def max_def split: if_splits)
qed

lemma ramped_unit:
  assumes "0 \<le> amplitude" "amplitude \<le> 1" "\<forall>i. - 1 \<le> draw i \<and> draw i \<le> 1"
  shows "\<forall>x \<in> set (ramped amplitude duration fs draw). \<bar>x\<bar> \<le> 1"
proof -
  have r: "\<forall>x \<in> set (linspace 0 amplitude (fs div 4)). \<bar>x\<bar> \<le> 1"
    using assms(1,2) by (intro linspace_unit) simp_all
  have m: "\<bar>amplitude * draw i\<bar> \<le> 1" for i
  proof -
    have "\<bar>draw i\<bar> \<le> 1" using assms(3) by (simp add: abs_le_iff)
    moreover have "\<bar>amplitude\<bar> \<le> 1" using assms(1,2) by simp
    ultimately have "\<bar>amplitude\<bar> * \<bar>draw i\<bar> \<le> 1" by (simp add: mult_le_one)
    then show ?thesis by (simp add: abs_mult)
  qed
  show ?thesis using r m by (auto simp: ramped_def)
qed

lemma envelope_unit:
  assumes "0 \<le> base" "base \<le> 1" "0 \<le> peak" "peak \<le> 1"
  shows "\<forall>x \<in> set (envelope base peak). \<bar>x\<bar> \<le> 1"
proof -
  have "\<forall>x \<in> set (linspace base peak 17640). \<bar>x\<bar> \<le> 1"
    using assms by (rule linspace_unit)
  then have "\<forall>x \<in> set (period base peak). \<bar>x\<bar> \<le> 1"
    using assms(1,2) by (auto simp: period_eq)
  then show ?thesis by (auto simp: envelope_def)
qed

lemma draws_unit:
  assumes "\<forall>i. - 1 \<le> draw i \<and> draw i \<le> 1"
  shows "\<forall>y \<in> set (map draw [a..<b]). \<bar>y\<bar> \<le> (1::real)"
proof
  fix y assume "y \<in> set (map draw [a..<b])"
  then obtain i where "y = draw i" by auto
  then show "\<bar>y\<bar> \<le> 1" using assms [rule_format, of i] by (simp add: abs_le_iff)
qed

lemma wave_generator_map2:
  "wave_generator base peak draw =
     Inr (map2 (*) (envelope base peak) (map draw [0..<441000]))"
  by (simp add: wave_generator_def np_mul_def Let_def length_envelope stim_fs_def stim_duration_def)

text \<open>
  Claim C8, amended. With both amplitudes in \<open>[0, 1]\<close> and every noise draw in
  \<open>[-1, 1]\<close>, every sample of the buffer of \<open>noise_generator\<close> (for a duration of at
  least one second) and of the buffer of \<open>wave_generator\<close> lies in \<open>[-1, 1]\<close>.
\<close>

theorem samples_in_range_bounded_noise:
  assumes "0 \<le> amplitude" and "amplitude \<le> 1" and "0 < duration"
    and "0 \<le> base" and "base \<le> 1" and "0 \<le> peak" and "peak \<le> 1"
    and "\<forall>i. - 1 \<le> draw i \<and> draw i \<le> 1"
  shows "(\<exists>w. noise_generator amplitude duration fs draw = Inr w
              \<and> (\<forall>s \<in> set w. - 1 \<le> s \<and> s \<le> 1))
         \<and> (\<exists>w. wave_generator base peak draw = Inr w
              \<and> (\<forall>s \<in> set w. - 1 \<le> s \<and> s \<le> 1))"
proof
  have "\<forall>s \<in> set (map2 (*) (ramped amplitude duration fs draw) (map draw [0..<fs * duration])).
          - 1 \<le> s \<and> s \<le> 1"
    using assms by (intro map2_mult_bounded ramped_unit draws_unit)
  then show "\<exists>w. noise_generator amplitude duration fs draw = Inr w
              \<and> (\<forall>s \<in> set w. - 1 \<le> s \<and> s \<le> 1)"
    using noise_generator_eq [OF assms(3)] by blast
next
  have "\<forall>s \<in> set (map2 (*) (envelope base peak) (map draw [0..<441000])).
          - 1 \<le> s \<and> s \<le> 1"
    using assms by (intro map2_mult_bounded envelope_unit draws_unit)
  then show "\<exists>w. wave_generator base peak draw = Inr w
              \<and> (\<forall>s \<in> set w. - 1 \<le> s \<and> s \<le> 1)"
    using wave_generator_map2 by blast
qed

text \<open>
  Claim C8 as stated fails: the noise is drawn from a normal distribution and is not
  clipped. With base and peak amplitude \<open>1\<close> and one draw of \<open>1.2\<close>, sample \<open>20000\<close> of
  the stimulus buffer is \<open>1.2\<close>.
\<close>

theorem loud_sample_out_of_range:
  "sample_of (wave_generator 1 1 loud_draw) 20000 = Some (6 / 5)"
proof -
  have "envelope 1 1 ! (0 * 44100 + 20000) = period 1 1 ! 20000"
    by (rule envelope_nth) simp_all
  then have "envelope 1 1 ! 20000 = 1" by (simp add: period_plateau)
  then show ?thesis
    by (simp add: wave_generator_eq sample_of_def loud_draw_def)
qed

theorem samples_in_range_bounded_noise_witness:
  "(0::real) \<le> 1 / 5 \<and> (1 / 5 :: real) \<le> 1 \<and> (0::nat) < 5
   \<and> (0::real) \<le> 7 / 10 \<and> (7 / 10 :: real) \<le> 1
   \<and> (\<exists>w. noise_generator (1 / 5) 5 44100 (\<lambda>i. 1 / 2) = Inr w
          \<and> (\<forall>s \<in> set w. - 1 \<le> s \<and> s \<le> 1))
   \<and> (\<exists>w. wave_generator (1 / 5) (7 / 10) (\<lambda>i. 1 / 2) = Inr w
          \<and> (\<forall>s \<in> set w. - 1 \<le> s \<and> s \<le> 1))"
  using samples_in_range_bounded_noise
    [where amplitude = "1 / 5" and duration = 5 and fs = 44100 and base = "1 / 5"
       and peak = "7 / 10" and draw = "\<lambda>i. 1 / 2"]
  by simp






section \<open>Properties of the calibration loop\<close>

text \<open>\<open>noise_generator\<close> returns a buffer for every amplitude.\<close>

lemma generated_ok: "\<exists>b. generated amplitude draw = Inr b"
proof (cases amplitude)
  case (Finite a)
  have "noise_generator a 5 44100 draw =
          Inr (map2 (*) (ramped a 5 44100 draw) (map draw [0..<44100 * 5]))"
    by (rule noise_generator_eq) simp
  then show ?thesis using Finite by (simp add: generated_def)
qed (simp_all add: generated_def)

text \<open>Every list of lines either has no rejected line or has a first one.\<close>

lemma lines_shape:
  "(\<exists>vs. lines = map Parses vs) \<or> (\<exists>vs rest. lines = map Parses vs @ Rejected # rest)"
proof (induction lines)
  case Nil
  have "[] = map Parses []" by simp
  then have "\<exists>vs. [] = map Parses vs" by (rule exI)
  then show ?case by (rule disjI1)
next
  case (Cons l lines)
  show ?case
  proof (cases l)
    case Rejected
    then have "l # lines = map Parses [] @ Rejected # lines" by simp
    then have "\<exists>vs rest. l # lines = map Parses vs @ Rejected # rest" by (intro exI)
    then show ?thesis by (rule disjI2)
  next
    case (Parses a)
    from Cons.IH show ?thesis
    proof (elim disjE exE)
      fix vs assume "lines = map Parses vs"
      then have "l # lines = map Parses (a # vs)" using Parses by simp
      then have "\<exists>vs. l # lines = map Parses vs" by (rule exI)
      then show ?thesis by (rule disjI1)
    next
      fix vs rest assume "lines = map Parses vs @ Rejected # rest"
      then have "l # lines = map Parses (a # vs) @ Rejected # rest" using Parses by simp
      then have "\<exists>vs rest. l # lines = map Parses vs @ Rejected # rest" by (intro exI)
      then show ?thesis by (rule disjI2)
    qed
  qed
qed

lemma calibrate_loop_returns:
  assumes "generated amplitude (draws j) = Inr wave"
  shows "\<exists>pre b. calibrate_loop amplitude wave (Suc j) draws (map Parses vs @ Rejected # rest)
                   = (pre @ [Write b, Input Rejected], Returned (last (amplitude # vs)))
                 \<and> generated (last (amplitude # vs)) (draws (j + length vs)) = Inr b"
  using assms
proof (induction vs arbitrary: amplitude wave j)
  case Nil
  have "calibrate_loop amplitude wave (Suc j) draws (map Parses [] @ Rejected # rest)
          = ([] @ [Write wave, Input Rejected], Returned (last (amplitude # [])))"
    by (simp add: isfloat_def)
  then show ?case using Nil by fastforce
next
  case (Cons a vs)
  obtain w where w: "generated a (draws (Suc j)) = Inr w"
    using generated_ok by blast
  then obtain pre b where
    run: "calibrate_loop a w (Suc (Suc j)) draws (map Parses vs @ Rejected # rest)
            = (pre @ [Write b, Input Rejected], Returned (last (a # vs)))"
    and b: "generated (last (a # vs)) (draws (Suc j + length vs)) = Inr b"
    using Cons.IH by blast
  have "calibrate_loop amplitude wave (Suc j) draws (map Parses (a # vs) @ Rejected # rest)
          = ((Write wave # Input (Parses a) # pre) @ [Write b, Input Rejected],
             Returned (last (amplitude # a # vs)))"
    using w run by (simp add: isfloat_def)
  moreover have "generated (last (amplitude # a # vs)) (draws (j + length (a # vs))) = Inr b"
    using b by simp
  ultimately show ?case by blast
qed

lemma calibrate_loop_exhausted:
  "snd (calibrate_loop amplitude wave k draws (map Parses vs)) = Failed EOFError"
proof (induction vs arbitrary: amplitude wave k)
  case Nil
  show ?case by simp
next
  case (Cons a vs)
  obtain w where w: "generated a (draws k) = Inr w"
    using generated_ok by blast
  show ?case
    using w Cons.IH [of a w "Suc k"]
    by (cases "calibrate_loop a w (Suc k) draws (map Parses vs)") (simp add: isfloat_def)
qed

lemma calibrate_run:
  "\<exists>pre b. calibrate amplitude draws (map Parses vs @ Rejected # rest)
              = (pre @ [Write b, Input Rejected], Returned (last (amplitude # vs)))
            \<and> generated (last (amplitude # vs)) (draws (length vs)) = Inr b"
proof -
  obtain w where w: "generated amplitude (draws 0) = Inr w"
    using generated_ok by blast
  show ?thesis
    using calibrate_loop_returns [where j = 0 and draws = draws and vs = vs and rest = rest, OF w] w
    by (simp add: calibrate_def)
qed

lemma calibrate_exhausted:
  "snd (calibrate amplitude draws (map Parses vs)) = Failed EOFError"
proof -
  obtain w where w: "generated amplitude (draws 0) = Inr w"
    using generated_ok by blast
  then show ?thesis by (simp add: calibrate_def calibrate_loop_exhausted)
qed

text \<open>
  Claim C7, amended. For every sequence of lines, \<open>calibrate\<close> takes each line that
  \<open>float()\<close> parses as the new amplitude, whatever its value (there is no check against
  \<open>[0, 1]\<close>), and on the first line that \<open>float()\<close> rejects it returns the last
  amplitude taken, or the initial amplitude when none was. When no line is rejected the
  call does not return: it ends with \<open>EOFError\<close> when the lines run out.
\<close>

theorem calibrate_returns_last_parsed:
  "snd (calibrate amplitude draws (map Parses vs @ Rejected # rest))
     = Returned (last (amplitude # vs))
   \<and> snd (calibrate amplitude draws (map Parses vs)) = Failed EOFError"
proof -
  obtain pre b where "calibrate amplitude draws (map Parses vs @ Rejected # rest)
              = (pre @ [Write b, Input Rejected], Returned (last (amplitude # vs)))"
    using calibrate_run by blast
  then show ?thesis by (simp add: calibrate_exhausted)
qed

text \<open>
  Claim C7 as stated fails: a line that parses to \<open>5.0\<close>, such as \<open>5\<close>, is outside
  \<open>[0, 1]\<close>, and is taken and returned.
\<close>

theorem calibrate_accepts_out_of_range:
  "snd (calibrate (Finite (1 / 5)) steady_draws [Parses (Finite 5), Rejected])
     = Returned (Finite 5)"
proof -
  obtain pre b where "calibrate (Finite (1 / 5)) steady_draws
                        (map Parses [Finite 5] @ Rejected # [])
              = (pre @ [Write b, Input Rejected], Returned (last (Finite (1 / 5) # [Finite 5])))"
    using calibrate_run by blast
  then show ?thesis by simp
qed

text \<open>
  Claim C10. For every sequence of lines on which \<open>calibrate\<close> returns, that is, for
  every sequence with a rejected line, its last two actions before the return are the
  write of the whole buffer that \<open>noise_generator\<close> made for the returned amplitude and
  the read of the line that ended the loop, in this order. On the other sequences the
  call does not return.
\<close>

theorem returned_amplitude_auditioned:
  "(\<exists>pre b. calibrate amplitude draws (map Parses vs @ Rejected # rest)
               = (pre @ [Write b, Input Rejected], Returned (last (amplitude # vs)))
             \<and> generated (last (amplitude # vs)) (draws (length vs)) = Inr b)
   \<and> snd (calibrate amplitude draws (map Parses vs)) = Failed EOFError"
  using calibrate_run [of amplitude draws vs rest] calibrate_exhausted [of amplitude draws vs]
  by blast

section \<open>Properties of the audio workers\<close>

lemma stim_blocked_forever:
  "st_pc s = StWait \<Longrightarrow> \<not> play_stim s \<Longrightarrow> (stim_step ^^ m) s = s"
  by (induction m) (simp_all add: stim_step_def)

lemma bg_done_fixed: "bg_pc s = BgDone \<Longrightarrow> bg_step s = s"
  by (simp add: bg_step_def)

lemma bg_done_forever: "bg_pc s = BgDone \<Longrightarrow> (bg_step ^^ m) s = s"
  by (induction m) (simp_all add: bg_done_fixed)

text \<open>
  The background worker reads \<open>end_stream\<close> before every write. Left to run, it stops
  within three steps, of which at most one is a write, closes its stream and terminates
  its \<open>PyAudio\<close> instance.
\<close>

lemma background_worker_stops:
  assumes "end_stream s" and "bg_pc s \<noteq> BgDone" and "bg_pc s \<noteq> BgKilled"
  shows "bg_pc ((bg_step ^^ 3) s) = BgDone
         \<and> \<not> bg_stream_open ((bg_step ^^ 3) s) \<and> \<not> bg_audio_up ((bg_step ^^ 3) s)
         \<and> bg_writes ((bg_step ^^ 3) s) \<le> bg_writes s + 1"
  using assms by (cases "bg_pc s") (simp_all add: eval_nat_numeral bg_step_def)

text \<open>
  Claim C6. The claim asks that both workers stop within one buffer write of the end
  signal and release their audio handles, whether or not a trigger is pending. When the
  operator quits while no trigger is pending, the stimulus worker is in
  \<open>play_stim.wait()\<close>; it reads \<open>end_stream\<close> only after a playback, so no number of its
  steps moves it, and it ends when the main process kills it, with its \<open>PyAudio\<close>
  instance never terminated.
\<close>

theorem stimulus_worker_blocked_at_end:
  "end_stream (main_set_end session_start)
   \<and> \<not> play_stim (main_set_end session_start)
   \<and> st_pc (main_set_end session_start) = StWait
   \<and> (\<forall>m. (stim_step ^^ m) (main_set_end session_start) = main_set_end session_start)
   \<and> st_pc (main_terminate (main_set_end session_start)) = StKilled
   \<and> st_audio_up (main_terminate (main_set_end session_start))"
proof -
  let ?s = "main_set_end session_start"
  have w: "st_pc ?s = StWait" "\<not> play_stim ?s" "end_stream ?s" "st_audio_up ?s"
    by (simp_all add: main_set_end_def session_start_def)
  have "(stim_step ^^ m) ?s = ?s" for m
    using w(1,2) by (rule stim_blocked_forever)
  then show ?thesis
    using w by (simp add: main_terminate_def)
qed

end
